theory Spec2Isabelle
  imports Main "HOL-Library.Word"
begin

section \<open>JavaScript values used by export\_pdf.js\<close>

text \<open>
  A JavaScript string is a sequence of 16-bit code units; a file's contents (a Buffer) is a
  sequence of octets. ASCII literals of the script are written \<open>js ''...''\<close>.
\<close>

type_synonym code_unit = "16 word"
type_synonym jsstr = "code_unit list"
type_synonym bytes = "8 word list"

definition js :: "string \<Rightarrow> jsstr" where
  "js s = map of_char s"

definition utf8Bytes :: "string \<Rightarrow> bytes" where
  "utf8Bytes s = map of_char s"

definition slash :: code_unit where "slash = 47"
definition dot :: code_unit where "dot = 46"
definition percent :: code_unit where "percent = 37"
definition question :: code_unit where "question = 63"

text \<open>Exceptions the script's calls can raise, as values.\<close>

datatype js_error =
  URIError
  | ERR_INVALID_ARG_VALUE
  | TypeError
  | TimeoutError
  | EADDRINUSE
  | EngineError

section \<open>Runtime functions the request handler calls\<close>

subsection \<open>\<open>decodeURIComponent\<close> (ECMA-262, Decode with an empty preserve set)\<close>

text \<open>
  The runtime scans the string from the left. A code unit other than \<open>%\<close> is copied.
  A \<open>%\<close> must be followed by two hexadecimal digits giving an octet B; with n the number
  of leading 1 bits of B: n = 0 yields the code unit B; n = 1 or n > 4 throws; otherwise
  n - 1 further escapes \<open>%XX\<close> must follow, and the n octets must be the well-formed
  UTF-8 encoding of a code point, which is appended in UTF-16. Every failure throws URIError.
\<close>

definition hexDigit :: "code_unit \<Rightarrow> nat option" where
  "hexDigit c =
     (if 48 \<le> c \<and> c \<le> 57 then Some (unat c - 48)
      else if 65 \<le> c \<and> c \<le> 70 then Some (unat c - 55)
      else if 97 \<le> c \<and> c \<le> 102 then Some (unat c - 87)
      else None)"

definition parseHexOctet :: "code_unit \<Rightarrow> code_unit \<Rightarrow> nat option" where
  "parseHexOctet a b =
     (case hexDigit a of
        None \<Rightarrow> None
      | Some hi \<Rightarrow> (case hexDigit b of None \<Rightarrow> None | Some lo \<Rightarrow> Some (16 * hi + lo)))"

definition leadingOnes :: "nat \<Rightarrow> nat" where
  "leadingOnes b =
     (if b < 128 then 0 else if b < 192 then 1 else if b < 224 then 2
      else if b < 240 then 3 else if b < 248 then 4 else if b < 252 then 5
      else if b < 254 then 6 else if b < 255 then 7 else 8)"

definition isContinuation :: "nat \<Rightarrow> bool" where
  "isContinuation b = (128 \<le> b \<and> b < 192)"

definition scalarOk :: "nat \<Rightarrow> nat \<Rightarrow> nat option" where
  "scalarOk least cp =
     (if least \<le> cp \<and> cp \<le> 1114111 \<and> \<not> (55296 \<le> cp \<and> cp \<le> 57343)
      then Some cp else None)"

fun utf8CodePoint :: "nat list \<Rightarrow> nat option" where
  "utf8CodePoint [b0, b1] =
     (if isContinuation b1 then scalarOk 128 ((b0 mod 32) * 64 + b1 mod 64) else None)"
| "utf8CodePoint [b0, b1, b2] =
     (if isContinuation b1 \<and> isContinuation b2
      then scalarOk 2048 ((b0 mod 16) * 4096 + (b1 mod 64) * 64 + b2 mod 64) else None)"
| "utf8CodePoint [b0, b1, b2, b3] =
     (if isContinuation b1 \<and> isContinuation b2 \<and> isContinuation b3
      then scalarOk 65536
             ((b0 mod 8) * 262144 + (b1 mod 64) * 4096 + (b2 mod 64) * 64 + b3 mod 64)
      else None)"
| "utf8CodePoint octets = None"

definition utf16Encode :: "nat \<Rightarrow> jsstr" where
  "utf16Encode cp =
     (if cp < 65536 then [of_nat cp]
      else [of_nat (55296 + (cp - 65536) div 1024), of_nat (56320 + (cp - 65536) mod 1024)])"

definition emit :: "jsstr \<Rightarrow> js_error + jsstr \<Rightarrow> js_error + jsstr" where
  "emit s r = (case r of Inl e \<Rightarrow> Inl e | Inr t \<Rightarrow> Inr (s @ t))"

text \<open>
  \<open>decodeFrom pending octets s\<close>: \<open>pending\<close> is the number of continuation escapes
  still owed to the multi-octet sequence collected in \<open>octets\<close>.
\<close>

fun decodeFrom :: "nat \<Rightarrow> nat list \<Rightarrow> jsstr \<Rightarrow> js_error + jsstr" where
  "decodeFrom 0 octets [] = Inr []"
| "decodeFrom 0 octets (c # cs) =
     (if c \<noteq> percent then emit [c] (decodeFrom 0 [] cs)
      else
        (case cs of
           h1 # h2 # rest \<Rightarrow>
             (case parseHexOctet h1 h2 of
                None \<Rightarrow> Inl URIError
              | Some b \<Rightarrow>
                  (if leadingOnes b = 0 then emit [of_nat b] (decodeFrom 0 [] rest)
                   else if leadingOnes b = 1 \<or> 4 < leadingOnes b then Inl URIError
                   else decodeFrom (leadingOnes b - 1) [b] rest))
         | _ \<Rightarrow> Inl URIError))"
| "decodeFrom (Suc k) octets s =
     (case s of
        p # h1 # h2 # rest \<Rightarrow>
          (if p \<noteq> percent then Inl URIError
           else
             (case parseHexOctet h1 h2 of
                None \<Rightarrow> Inl URIError
              | Some b \<Rightarrow>
                  (if k = 0 then
                     (case utf8CodePoint (octets @ [b]) of
                        None \<Rightarrow> Inl URIError
                      | Some cp \<Rightarrow> emit (utf16Encode cp) (decodeFrom 0 [] rest))
                   else decodeFrom k (octets @ [b]) rest)))
      | _ \<Rightarrow> Inl URIError)"

definition decodeURIComponent :: "jsstr \<Rightarrow> js_error + jsstr" where
  "decodeURIComponent s = decodeFrom 0 [] s"

subsection \<open>\<open>String.prototype.toLowerCase\<close>\<close>

text \<open>
  On a string of ASCII code units the runtime maps A-Z to a-z and leaves the rest. On any
  other string the result comes from the Unicode case tables, which are not part of the
  script: they are the parameter \<open>unicodeLower\<close>.
\<close>

definition asciiLower :: "code_unit \<Rightarrow> code_unit" where
  "asciiLower c = (if 65 \<le> c \<and> c \<le> 90 then c + 32 else c)"

definition toLowerCase :: "(jsstr \<Rightarrow> jsstr) \<Rightarrow> jsstr \<Rightarrow> jsstr" where
  "toLowerCase unicodeLower s =
     (if list_all (\<lambda>c. c < 128) s then map asciiLower s else unicodeLower s)"

subsection \<open>\<open>path.join\<close> and \<open>path.extname\<close> (Node, POSIX flavour)\<close>

fun splitOn :: "'a \<Rightarrow> 'a list \<Rightarrow> 'a list list" where
  "splitOn d [] = [[]]"
| "splitOn d (c # cs) =
     (if c = d then [] # splitOn d cs
      else (case splitOn d cs of [] \<Rightarrow> [[c]] | s # ss \<Rightarrow> (c # s) # ss))"

fun joinWith :: "'a \<Rightarrow> 'a list list \<Rightarrow> 'a list" where
  "joinWith d [] = []"
| "joinWith d [s] = s"
| "joinWith d (s # t # ss) = s @ d # joinWith d (t # ss)"

text \<open>
  \<open>normalizeString\<close>: empty and \<open>.\<close> segments are dropped; \<open>..\<close> removes the last kept
  segment unless there is none or it is \<open>..\<close> itself, in which case \<open>..\<close> is kept when
  the path may climb above its root and dropped otherwise; any other segment is kept.
\<close>

fun normalizeSegments :: "bool \<Rightarrow> jsstr list \<Rightarrow> jsstr list \<Rightarrow> jsstr list" where
  "normalizeSegments allowAboveRoot res [] = res"
| "normalizeSegments allowAboveRoot res (s # ss) =
     (if s = [] \<or> s = [dot] then normalizeSegments allowAboveRoot res ss
      else if s = [dot, dot] then
        (if res \<noteq> [] \<and> last res \<noteq> [dot, dot]
         then normalizeSegments allowAboveRoot (butlast res) ss
         else if allowAboveRoot then normalizeSegments allowAboveRoot (res @ [[dot, dot]]) ss
         else normalizeSegments allowAboveRoot res ss)
      else normalizeSegments allowAboveRoot (res @ [s]) ss)"

definition normalizeString :: "jsstr \<Rightarrow> bool \<Rightarrow> jsstr" where
  "normalizeString p allowAboveRoot =
     joinWith slash (normalizeSegments allowAboveRoot [] (splitOn slash p))"

definition normalize :: "jsstr \<Rightarrow> jsstr" where
  "normalize p =
     (if p = [] then [dot]
      else
        (let isAbsolute = (hd p = slash);
             trailingSeparator = (last p = slash);
             q = normalizeString p (\<not> isAbsolute)
         in if q = [] then (if isAbsolute then [slash]
                            else if trailingSeparator then [dot, slash] else [dot])
            else (if isAbsolute then [slash] else []) @ q
                 @ (if trailingSeparator then [slash] else [])))"

definition pathJoin :: "jsstr \<Rightarrow> jsstr \<Rightarrow> jsstr" where
  "pathJoin a b =
     (let parts = filter (\<lambda>s. s \<noteq> []) [a, b]
      in if parts = [] then [dot] else normalize (joinWith slash parts))"

text \<open>
  \<open>path.extname\<close> scans the path from its last code unit to its first; the record holds
  the loop's variables (\<open>-1\<close> means not set).
\<close>

record extname_vars =
  startDot :: int
  startPart :: int
  endPos :: int
  matchedSlash :: bool
  preDotState :: int

fun extnameScan :: "jsstr \<Rightarrow> extname_vars \<Rightarrow> extname_vars" where
  "extnameScan [] v = v"
| "extnameScan (code # front) v =
     (let i = int (length front) in
      if code = slash then
        (if \<not> matchedSlash v then v\<lparr>startPart := i + 1\<rparr>
         else extnameScan front v)
      else
        (let v1 = (if endPos v = -1 then v\<lparr>endPos := i + 1, matchedSlash := False\<rparr> else v);
             v2 = (if code = dot then
                     (if startDot v1 = -1 then v1\<lparr>startDot := i\<rparr>
                      else if preDotState v1 \<noteq> 1 then v1\<lparr>preDotState := 1\<rparr>
                      else v1)
                   else if startDot v1 \<noteq> -1 then v1\<lparr>preDotState := -1\<rparr>
                   else v1)
         in extnameScan front v2))"

definition extname :: "jsstr \<Rightarrow> jsstr" where
  "extname p =
     (let v = extnameScan (rev p)
                \<lparr>startDot = -1, startPart = 0, endPos = -1, matchedSlash = True,
                 preDotState = 0\<rparr>
      in if startDot v = -1 \<or> endPos v = -1 \<or> preDotState v = 0
            \<or> (preDotState v = 1 \<and> startDot v = endPos v - 1 \<and> startDot v = startPart v + 1)
         then []
         else take (nat (endPos v - startDot v)) (drop (nat (startDot v)) p))"

subsection \<open>\<open>fs.readFile\<close>\<close>

text \<open>
  The file system maps a path to the file's octets when the read succeeds. The runtime
  rejects a path holding a NUL code unit by throwing before any read; otherwise the
  callback receives either an error or the data.
\<close>

type_synonym filesystem = "jsstr \<Rightarrow> bytes option"

definition readFile :: "filesystem \<Rightarrow> jsstr \<Rightarrow> js_error + bytes option" where
  "readFile fs p = (if 0 \<in> set p then Inl ERR_INVALID_ARG_VALUE else Inr (fs p))"

section \<open>The asset server (\<open>startServer\<close>, lines 6-30)\<close>

text \<open>
  The table \<open>MIME\<close> of lines 7-13. The script looks up an extension, which is empty or
  starts with a dot, so the lookup never finds a property inherited by the object literal:
  the table is its five entries.
\<close>

definition MIME :: "(jsstr \<times> jsstr) list" where
  "MIME =
     [(js ''.html'', js ''text/html''),
      (js ''.css'', js ''text/css''),
      (js ''.js'', js ''application/javascript''),
      (js ''.png'', js ''image/png''),
      (js ''.svg'', js ''image/svg+xml'')]"

record response =
  status :: nat
  contentType :: "jsstr option"
  body :: bytes

definition mimeOf :: "(jsstr \<Rightarrow> jsstr) \<Rightarrow> jsstr \<Rightarrow> jsstr" where
  "mimeOf unicodeLower filePath =
     (case map_of MIME (toLowerCase unicodeLower (extname filePath)) of
        Some m \<Rightarrow> m
      | None \<Rightarrow> js ''application/octet-stream'')"

definition resolveFile :: "jsstr \<Rightarrow> jsstr \<Rightarrow> jsstr" where
  "resolveFile folder urlPath =
     pathJoin folder (if urlPath = js ''/'' then js ''booklet.html'' else urlPath)"

text \<open>
  The request callback of \<open>http.createServer\<close> (lines 15-24). \<open>Inl e\<close>: the callback threw
  \<open>e\<close> and wrote no response; \<open>Inr r\<close>: it answered \<open>r\<close>.
\<close>

definition requestHandler ::
    "(jsstr \<Rightarrow> jsstr) \<Rightarrow> filesystem \<Rightarrow> jsstr \<Rightarrow> jsstr \<Rightarrow> js_error + response" where
  "requestHandler unicodeLower fs folder url =
     (case decodeURIComponent (takeWhile (\<lambda>c. c \<noteq> question) url) of
        Inl e \<Rightarrow> Inl e
      | Inr urlPath \<Rightarrow>
          (let filePath = resolveFile folder urlPath in
           case readFile fs filePath of
             Inl e \<Rightarrow> Inl e
           | Inr None \<Rightarrow>
               Inr \<lparr>status = 404, contentType = None, body = utf8Bytes ''Not found''\<rparr>
           | Inr (Some data) \<Rightarrow>
               Inr \<lparr>status = 200, contentType = Some (mimeOf unicodeLower filePath),
                    body = data\<rparr>))"

text \<open>
  The extension table as the specification words it: five extensions with their content
  types, and the generic binary type for everything else.
\<close>

definition specContentType :: "jsstr \<Rightarrow> jsstr" where
  "specContentType ext =
     (if ext = js ''.html'' then js ''text/html''
      else if ext = js ''.css'' then js ''text/css''
      else if ext = js ''.js'' then js ''application/javascript''
      else if ext = js ''.png'' then js ''image/png''
      else if ext = js ''.svg'' then js ''image/svg+xml''
      else js ''application/octet-stream'')"

text \<open>
  Two extensions differ only in letter case: same length, and position by position either
  the same code unit or the upper-case form of a lower-case ASCII letter of the table entry.
\<close>

definition caseVariant :: "jsstr \<Rightarrow> jsstr \<Rightarrow> bool" where
  "caseVariant ext entry =
     list_all2 (\<lambda>x k. x = k \<or> (97 \<le> k \<and> k \<le> 122 \<and> x + 32 = k)) ext entry"

text \<open>
  \<open>startServer folder port\<close> (lines 26-29): the promise is rejected with the error the
  server emits, or resolved with the listening server.
\<close>

record server =
  root :: jsstr
  port :: nat

definition startServer :: "js_error option \<Rightarrow> jsstr \<Rightarrow> nat \<Rightarrow> js_error + server" where
  "startServer listenError folder p =
     (case listenError of
        Some e \<Rightarrow> Inl e
      | None \<Rightarrow> Inr \<lparr>root = folder, port = p\<rparr>)"

section \<open>The export orchestrator (lines 32-145)\<close>

subsection \<open>The page and its diagnostics snapshot (lines 89-98)\<close>

text \<open>
  What the function evaluated in the page reads of the document: the title, the number of
  elements matching \<open>.exhibit-box\<close> and \<open>.page\<close>, the text content of the elements
  \<open>#loading\<close> and \<open>#status\<close> when they exist, and the inner HTML of \<open>document.body\<close>
  when the document has a body (\<open>document.body\<close> is null otherwise).
\<close>

record document =
  docTitle :: jsstr
  exhibitBoxes :: nat
  pages :: nat
  loadingElement :: "jsstr option"
  statusElement :: "jsstr option"
  bodyInnerHTML :: "jsstr option"

record diagnostics =
  title :: jsstr
  cardCount :: nat
  pageCount :: nat
  loadingText :: jsstr
  statusText :: jsstr
  bodySnippet :: jsstr

text \<open>\<open>element?.textContent || placeholder\<close>: the empty string is falsy.\<close>

definition textOr :: "jsstr option \<Rightarrow> jsstr \<Rightarrow> jsstr" where
  "textOr element placeholder =
     (case element of
        None \<Rightarrow> placeholder
      | Some txt \<Rightarrow> (if txt = [] then placeholder else txt))"

definition diagnosticsOf :: "document \<Rightarrow> js_error + diagnostics" where
  "diagnosticsOf d =
     (case bodyInnerHTML d of
        None \<Rightarrow> Inl TypeError
      | Some html \<Rightarrow>
          Inr \<lparr>title = docTitle d,
               cardCount = exhibitBoxes d,
               pageCount = pages d,
               loadingText = textOr (loadingElement d) (js ''(no #loading element)''),
               statusText = textOr (statusElement d) (js ''(no #status element)''),
               bodySnippet = take 400 html\<rparr>)"

subsection \<open>\<open>path.resolve\<close> (Node, POSIX flavour)\<close>

fun resolveArgs :: "jsstr list \<Rightarrow> jsstr \<Rightarrow> jsstr \<times> bool" where
  "resolveArgs [] resolvedPath = (resolvedPath, False)"
| "resolveArgs (p # ps) resolvedPath =
     (if p = [] then resolveArgs ps resolvedPath
      else if hd p = slash then (p @ slash # resolvedPath, True)
      else resolveArgs ps (p @ slash # resolvedPath))"

definition pathResolve :: "jsstr \<Rightarrow> jsstr \<Rightarrow> jsstr \<Rightarrow> jsstr" where
  "pathResolve cwd a b =
     (case resolveArgs [b, a, cwd] [] of
        (resolvedPath, resolvedAbsolute) \<Rightarrow>
          (let q = normalizeString resolvedPath (\<not> resolvedAbsolute)
           in if resolvedAbsolute then slash # q else if q \<noteq> [] then q else [dot]))"

subsection \<open>One run of the script\<close>

text \<open>
  The environment of a run: where the script lives, and how each call into the runtime,
  the browser engine and the page turns out. \<open>Some e\<close> means the call fails with \<open>e\<close>
  (the promise is rejected, or the server emits \<open>error\<close>).
\<close>

record environment =
  dirname :: jsstr
  cwd :: jsstr
  listenError :: "js_error option"
  launchError :: "js_error option"
  newPageError :: "js_error option"
  setViewportError :: "js_error option"
  gotoError :: "js_error option"
  waitError :: "js_error option"
  evaluateError :: "js_error option"
  page :: document
  pdfError :: "js_error option"
  closeError :: "js_error option"

datatype action =
  StartServer
  | LaunchBrowser
  | NewPage
  | SetViewport
  | AttachListeners
  | Goto jsstr
  | WaitForFunction
  | Evaluate
  | Settle
  | PagePdf jsstr
  | BrowserClose
  | ServerClose

text \<open>The lines the script prints, by the statement that prints them.\<close>

datatype line =
  StartingServer nat
  | CouldNotStart nat js_error
  | LaunchingChrome
  | Opening jsstr
  | NetworkIdleTimedOut
  | WaitingForCards
  | PageDiagnostics diagnostics
  | NoCardsRendered
  | Rendered nat nat
  | GeneratingPdf jsstr
  | Finished jsstr nat nat
  | UnexpectedError js_error

text \<open>
  A run is the sequence of what the script did: a line printed, a call that completed
  (\<open>Did\<close>; for \<open>PagePdf p\<close> the file \<open>p\<close> is written), or a call that failed.
\<close>

datatype event =
  Log line
  | Did action
  | Failed action js_error

text \<open>How the body of the async function ends.\<close>

datatype ending =
  Returned
  | Exited nat
  | Threw js_error

definition PORT :: nat where
  "PORT = 3179"

definition outputPath :: "environment \<Rightarrow> jsstr" where
  "outputPath env = pathResolve (cwd env) (dirname env) (js ''expo_booklet.pdf'')"

definition pageUrl :: jsstr where
  "pageUrl = js ''http://127.0.0.1:3179/booklet.html''"

text \<open>\<open>await call\<close>: a failed call ends the body with the exception.\<close>

definition await ::
    "action \<Rightarrow> js_error option \<Rightarrow> event list \<Rightarrow> (event list \<Rightarrow> event list \<times> ending)
       \<Rightarrow> event list \<times> ending" where
  "await a outcome t continue =
     (case outcome of
        Some e \<Rightarrow> (t @ [Failed a e], Threw e)
      | None \<Rightarrow> continue (t @ [Did a]))"

definition evaluate :: "environment \<Rightarrow> js_error + diagnostics" where
  "evaluate env =
     (case evaluateError env of
        Some e \<Rightarrow> Inl e
      | None \<Rightarrow> diagnosticsOf (page env))"

text \<open>Lines 109-140: the decision on the snapshot, the capture and the teardown.\<close>

definition finish :: "environment \<Rightarrow> bool \<Rightarrow> diagnostics \<Rightarrow> event list \<Rightarrow> event list \<times> ending" where
  "finish env timedOut d t =
     (if timedOut \<or> cardCount d = 0 then
        await BrowserClose (closeError env) (t @ [Log NoCardsRendered])
          (\<lambda>t. (t @ [Did ServerClose], Exited 1))
      else
        await (PagePdf (outputPath env)) (pdfError env)
          (t @ [Did Settle, Log (Rendered (cardCount d) (pageCount d)),
                Log (GeneratingPdf (outputPath env))])
          (\<lambda>t. await BrowserClose (closeError env) t
            (\<lambda>t. (t @ [Did ServerClose,
                        Log (Finished (outputPath env) (pageCount d) (cardCount d))],
                   Returned))))"

text \<open>Lines 67-107: navigation, the wait for the cards, the snapshot.\<close>

definition render :: "environment \<Rightarrow> event list \<Rightarrow> event list \<times> ending" where
  "render env t0 =
     (let t1 = t0 @ [Log (Opening pageUrl)];
          t2 = (case gotoError env of
                  Some e \<Rightarrow> t1 @ [Failed (Goto pageUrl) e, Log NetworkIdleTimedOut]
                | None \<Rightarrow> t1 @ [Did (Goto pageUrl)]);
          t3 = t2 @ [Log WaitingForCards];
          timedOut = (waitError env \<noteq> None);
          t4 = (case waitError env of
                  Some e \<Rightarrow> t3 @ [Failed WaitForFunction e]
                | None \<Rightarrow> t3 @ [Did WaitForFunction])
      in case evaluate env of
           Inl e \<Rightarrow> (t4 @ [Failed Evaluate e], Threw e)
         | Inr d \<Rightarrow> finish env timedOut d (t4 @ [Did Evaluate, Log (PageDiagnostics d)]))"

text \<open>Lines 33-65: the server and the browser.\<close>

definition asyncBody :: "environment \<Rightarrow> event list \<times> ending" where
  "asyncBody env =
     (let t = [Log (StartingServer PORT)] in
      case startServer (listenError env) (dirname env) PORT of
        Inl e \<Rightarrow> (t @ [Failed StartServer e, Log (CouldNotStart PORT e)], Exited 1)
      | Inr srv \<Rightarrow>
          await LaunchBrowser (launchError env) (t @ [Did StartServer, Log LaunchingChrome])
            (\<lambda>t. await NewPage (newPageError env) t
              (\<lambda>t. await SetViewport (setViewportError env) t
                (\<lambda>t. render env (t @ [Did AttachListeners])))))"

text \<open>
  The script: the body, and the handler of line 142 for an exception that escapes it.
  The result is what the script did and the status the process exits with (0 when the
  body returns and nothing is left to run), as long as no request callback of the server
  throws meanwhile; \<open>nodeProcess\<close> below adds the server's side.
\<close>

definition main :: "environment \<Rightarrow> event list \<times> nat" where
  "main env =
     (case asyncBody env of
        (t, Returned) \<Rightarrow> (t, 0)
      | (t, Exited n) \<Rightarrow> (t, n)
      | (t, Threw e) \<Rightarrow> (t @ [Log (UnexpectedError e)], 1))"

definition trace :: "environment \<Rightarrow> event list" where
  "trace env = fst (main env)"

definition exitStatus :: "environment \<Rightarrow> nat" where
  "exitStatus env = snd (main env)"

text \<open>Observations on a run.\<close>

fun writtenFiles :: "event list \<Rightarrow> jsstr list" where
  "writtenFiles [] = []"
| "writtenFiles (Did (PagePdf p) # t) = p # writtenFiles t"
| "writtenFiles (ev # t) = writtenFiles t"

fun calledAction :: "event \<Rightarrow> action option" where
  "calledAction (Did a) = Some a"
| "calledAction (Failed a e) = Some a"
| "calledAction (Log l) = None"

definition attempted :: "action \<Rightarrow> event list \<Rightarrow> bool" where
  "attempted a t = (Some a \<in> set (map calledAction t))"

subsection \<open>The process: the script and the requests its server answers\<close>

text \<open>
  The server of lines 15-24 lives in the process of the script. While the async function
  is suspended in a call, the requests that arrive are answered by the request callback.
  Nothing catches an exception thrown by the callback (there is no \<open>try\<close> around line 16
  and no \<open>uncaughtException\<close> handler): the process ends there with status 1, and the call
  the function was suspended in never completes.

  The network of a run: the files the server can read, the Unicode case tables, and the
  requests that arrive, each with the call during which it arrives, in order of arrival.
\<close>

record network =
  files :: filesystem
  unicodeLower :: "jsstr \<Rightarrow> jsstr"
  incoming :: "(action \<times> jsstr) list"

text \<open>The first request on which the callback throws, with the exception.\<close>

fun firstThrow ::
    "(jsstr \<Rightarrow> js_error + response) \<Rightarrow> jsstr list \<Rightarrow> (jsstr \<times> js_error) option" where
  "firstThrow handler [] = None"
| "firstThrow handler (url # urls) =
     (case handler url of
        Inl e \<Rightarrow> Some (url, e)
      | Inr r \<Rightarrow> firstThrow handler urls)"

definition arriving :: "network \<Rightarrow> action \<Rightarrow> jsstr list" where
  "arriving net a = map snd (filter (\<lambda>r. fst r = a) (incoming net))"

text \<open>The server is started with the directory of the script (line 39).\<close>

definition handlerCrash ::
    "network \<Rightarrow> environment \<Rightarrow> action \<Rightarrow> (jsstr \<times> js_error) option" where
  "handlerCrash net env a =
     firstThrow (requestHandler (unicodeLower net) (files net) (dirname env)) (arriving net a)"

definition handlerSurvives :: "network \<Rightarrow> environment \<Rightarrow> bool" where
  "handlerSurvives net env =
     (firstThrow (requestHandler (unicodeLower net) (files net) (dirname env))
        (map snd (incoming net)) = None)"

text \<open>
  The calls the function is suspended in while the server listens: every awaited call but
  \<open>startServer\<close> itself; \<open>page.on\<close> and \<open>server.close\<close> return at once.
\<close>

fun suspends :: "action \<Rightarrow> bool" where
  "suspends StartServer = False"
| "suspends AttachListeners = False"
| "suspends ServerClose = False"
| "suspends a = True"

record process_end =
  events :: "event list"
  uncaught :: "(jsstr \<times> js_error) option"
  exitCode :: nat

text \<open>
  \<open>serveDuring crash past rest st\<close> follows the script through the events \<open>rest\<close> it
  would produce: before a suspending call completes, the requests arriving during it are
  answered, and an exception of the callback ends the process.
\<close>

fun serveDuring ::
    "(action \<Rightarrow> (jsstr \<times> js_error) option) \<Rightarrow> event list \<Rightarrow> event list \<Rightarrow> nat
       \<Rightarrow> process_end" where
  "serveDuring crash past [] st = \<lparr>events = past, uncaught = None, exitCode = st\<rparr>"
| "serveDuring crash past (ev # rest) st =
     (case (case calledAction ev of
              None \<Rightarrow> None
            | Some a \<Rightarrow> (if suspends a then crash a else None)) of
        Some thrown \<Rightarrow> \<lparr>events = past, uncaught = Some thrown, exitCode = 1\<rparr>
      | None \<Rightarrow> serveDuring crash (past @ [ev]) rest st)"

definition nodeProcess :: "network \<Rightarrow> environment \<Rightarrow> process_end" where
  "nodeProcess net env = serveDuring (handlerCrash net env) [] (trace env) (exitStatus env)"

subsection \<open>The directory of the script\<close>

text \<open>
  Node sets \<open>__dirname\<close> to the absolute, normalized path of the directory that holds the
  script: \<open>/\<close>, or a path \<open>/s1/.../sn\<close> whose segments are not empty, hold no separator
  and are neither \<open>.\<close> nor \<open>..\<close>. A file beside the script then has the path
  \<open>inDirectory dir name\<close>.
\<close>

definition plainSegment :: "jsstr \<Rightarrow> bool" where
  "plainSegment s = (s \<noteq> [] \<and> slash \<notin> set s \<and> s \<noteq> [dot] \<and> s \<noteq> [dot, dot])"

definition normalizedAbsolute :: "jsstr \<Rightarrow> bool" where
  "normalizedAbsolute p =
     (p = [slash]
      \<or> (p \<noteq> [] \<and> hd p = slash \<and> list_all plainSegment (splitOn slash (tl p))))"

definition inDirectory :: "jsstr \<Rightarrow> jsstr \<Rightarrow> jsstr" where
  "inDirectory dir name = (if dir = [slash] then dir @ name else dir @ slash # name)"

section \<open>Concrete requests and runs\<close>

text \<open>
  A root directory \<open>/srv\<close> holding \<open>booklet.html\<close> and \<open>Style.Css\<close>, a file system in
  which no file can be read, a page with three cards and its snapshot, a page whose
  document has no body, a run in which every call succeeds except that navigation times
  out, and a network in which the page is requested during the navigation and its data
  during the wait for the cards.
\<close>

definition demoFiles :: filesystem where
  "demoFiles p =
     (if p = js ''/srv/booklet.html'' then Some (utf8Bytes ''<html></html>'')
      else if p = js ''/srv/Style.Css'' then Some (utf8Bytes ''h1{}'')
      else None)"

definition noFiles :: filesystem where
  "noFiles p = None"

definition demoPage :: document where
  "demoPage =
     \<lparr>docTitle = js ''Expo'', exhibitBoxes = 3, pages = 2, loadingElement = None,
      statusElement = Some (js ''ready''), bodyInnerHTML = Some (js ''<div></div>'')\<rparr>"

definition bodylessPage :: document where
  "bodylessPage =
     \<lparr>docTitle = js ''Expo'', exhibitBoxes = 0, pages = 0, loadingElement = None,
      statusElement = None, bodyInnerHTML = None\<rparr>"

definition demoRun :: environment where
  "demoRun =
     \<lparr>dirname = js ''/home/u/expo'', cwd = js ''/tmp'', listenError = None,
      launchError = None, newPageError = None, setViewportError = None,
      gotoError = Some TimeoutError, waitError = None, evaluateError = None,
      page = demoPage, pdfError = None, closeError = None\<rparr>"

definition demoSnapshot :: diagnostics where
  "demoSnapshot =
     \<lparr>title = js ''Expo'', cardCount = 3, pageCount = 2,
      loadingText = js ''(no #loading element)'', statusText = js ''ready'',
      bodySnippet = js ''<div></div>''\<rparr>"

definition expoFiles :: filesystem where
  "expoFiles p =
     (if p = js ''/home/u/expo/booklet.html'' then Some (utf8Bytes ''<html></html>'')
      else None)"

definition demoNetwork :: network where
  "demoNetwork =
     \<lparr>files = expoFiles, unicodeLower = id,
      incoming = [(Goto pageUrl, js ''/booklet.html''),
                  (WaitForFunction, js ''/data.csv?sheet=1'')]\<rparr>"

section \<open>Facts about the runtime functions\<close>

subsection \<open>Percent-decoding\<close>

lemma hexDigit_percent: "hexDigit percent = None"
  by (simp add: hexDigit_def percent_def)

lemma parseHexOctet_percent: "parseHexOctet h percent = None"
  by (simp add: parseHexOctet_def hexDigit_percent split: option.split)

lemma emit_Inl: "emit s (Inl e) = Inl e"
  by (simp add: emit_def)

text \<open>A string without \<open>%\<close> decodes to itself.\<close>

lemma decodeFrom_plain:
  assumes "percent \<notin> set s"
  shows "decodeFrom 0 octets s = Inr s"
  using assms by (induction s arbitrary: octets) (auto simp add: emit_def)

text \<open>
  A string that ends in a lone \<open>%\<close> never decodes, whatever precedes the \<open>%\<close> and
  whatever multi-octet sequence is pending.
\<close>

lemma decodeFrom_lone_percent: "decodeFrom k octets (s @ [percent]) = Inl URIError"
proof (induction k octets s rule: decodeFrom.induct)
  case (1 octets)
  show ?case by simp
next
  case (2 octets c cs)
  show ?case
  proof (cases "c = percent")
    case False
    with 2 show ?thesis by (simp add: emit_Inl)
  next
    case True
    show ?thesis
    proof (cases cs)
      case Nil
      with True show ?thesis by simp
    next
      case (Cons h1 cs')
      show ?thesis
      proof (cases cs')
        case Nil
        with True Cons show ?thesis by (simp add: parseHexOctet_percent)
      next
        case (Cons h2 rest)
        with True \<open>cs = h1 # cs'\<close> 2 show ?thesis
          by (auto simp add: emit_Inl split: option.split)
      qed
    qed
  qed
next
  case (3 k octets s)
  show ?case
  proof (cases s)
    case Nil
    then show ?thesis by simp
  next
    case (Cons p s1)
    show ?thesis
    proof (cases s1)
      case Nil
      with Cons show ?thesis by simp
    next
      case (Cons h1 s2)
      show ?thesis
      proof (cases s2)
        case Nil
        with \<open>s = p # s1\<close> \<open>s1 = h1 # s2\<close> show ?thesis
          by (simp add: parseHexOctet_percent)
      next
        case (Cons h2 rest)
        with \<open>s = p # s1\<close> \<open>s1 = h1 # s2\<close> 3 show ?thesis
          by (auto simp add: emit_Inl split: option.split)
      qed
    qed
  qed
qed

subsection \<open>Joining paths\<close>

lemma splitOn_nonempty: "splitOn d xs \<noteq> []"
  by (induction xs) (auto split: list.splits)

lemma splitOn_append: "splitOn d (a @ d # b) = splitOn d a @ splitOn d b"
proof (induction a)
  case Nil
  show ?case by simp
next
  case (Cons c a)
  obtain s ss where "splitOn d a = s # ss"
    using splitOn_nonempty [of d a] by (cases "splitOn d a") auto
  with Cons show ?case by simp
qed

lemma normalizeSegments_append:
  "normalizeSegments r res (xs @ ys) = normalizeSegments r (normalizeSegments r res xs) ys"
  by (induction xs arbitrary: res) auto

text \<open>A doubled separator is the same as a single one.\<close>

lemma normalizeString_double_slash:
  "normalizeString (a @ slash # slash # b) r = normalizeString (a @ slash # b) r"
  by (simp add: normalizeString_def splitOn_append normalizeSegments_append)

lemma normalize_double_slash:
  assumes "b \<noteq> []"
  shows "normalize (a @ slash # slash # b) = normalize (a @ slash # b)"
proof -
  have "hd (a @ slash # slash # b) = hd (a @ slash # b)"
    by (cases a) auto
  moreover have "last (a @ slash # slash # b) = last (a @ slash # b)"
    using assms by simp
  ultimately show ?thesis
    by (simp add: normalize_def normalizeString_double_slash)
qed

lemma pathJoin_leading_slash:
  assumes "folder \<noteq> []" "b \<noteq> []"
  shows "pathJoin folder (slash # b) = pathJoin folder b"
  using assms normalize_double_slash [of b folder]
  by (simp add: pathJoin_def)

text \<open>
  Resolving a plain file name against a normalized absolute directory gives the file of
  that name in the directory.
\<close>

lemma splitOn_no_separator:
  assumes "d \<notin> set xs"
  shows "splitOn d xs = [xs]"
  using assms by (induction xs) auto

lemma joinWith_splitOn: "joinWith d (splitOn d xs) = xs"
proof (induction xs)
  case Nil
  show ?case by simp
next
  case (Cons c xs)
  obtain s ss where "splitOn d xs = s # ss"
    using splitOn_nonempty [of d xs] by (cases "splitOn d xs") auto
  with Cons show ?case by (cases ss) auto
qed

lemma joinWith_snoc:
  assumes "xs \<noteq> []"
  shows "joinWith d (xs @ [s]) = joinWith d xs @ d # s"
  using assms by (induction d xs rule: joinWith.induct) auto

lemma normalizeSegments_plain:
  assumes "list_all plainSegment xs"
  shows "normalizeSegments r res xs = res @ xs"
  using assms by (induction xs arbitrary: res) (auto simp add: plainSegment_def)

lemma normalizeString_directory_file:
  assumes "list_all plainSegment (splitOn slash rest)" "plainSegment name"
  shows "normalizeString (slash # rest @ slash # name @ [slash]) r = rest @ slash # name"
proof -
  have n: "splitOn slash (name @ [slash]) = [name, []]"
    using assms(2) splitOn_append [of slash name "[]"]
    by (simp add: plainSegment_def splitOn_no_separator)
  have "splitOn slash (slash # rest @ slash # name @ [slash])
        = [] # splitOn slash rest @ [name, []]"
    using splitOn_append [of slash rest "name @ [slash]"] n by simp
  then have "normalizeSegments r [] (splitOn slash (slash # rest @ slash # name @ [slash]))
        = splitOn slash rest @ [name]"
    using assms
    by (simp add: normalizeSegments_append normalizeSegments_plain plainSegment_def)
  then show ?thesis
    using joinWith_snoc [of "splitOn slash rest" slash name] splitOn_nonempty [of slash rest]
    by (simp add: normalizeString_def joinWith_splitOn)
qed

lemma pathResolve_beside:
  assumes "normalizedAbsolute dir" "plainSegment name"
  shows "pathResolve c dir name = inDirectory dir name"
proof (cases "dir = [slash]")
  case True
  have "splitOn slash (slash # slash # name @ [slash]) = [[], [], name, []]"
    using assms(2) splitOn_append [of slash name "[]"]
    by (simp add: plainSegment_def splitOn_no_separator)
  then have "normalizeString (slash # slash # name @ [slash]) False = name"
    using assms(2) by (simp add: normalizeString_def plainSegment_def)
  moreover have "name \<noteq> []"
    using assms(2) by (simp add: plainSegment_def)
  moreover have "hd name \<noteq> slash"
    using assms(2) by (cases name) (auto simp add: plainSegment_def)
  ultimately show ?thesis
    using True by (simp add: pathResolve_def inDirectory_def)
next
  case False
  with assms(1) obtain rest where d: "dir = slash # rest"
    "list_all plainSegment (splitOn slash rest)"
    by (cases dir) (auto simp add: normalizedAbsolute_def)
  have "name \<noteq> []"
    using assms(2) by (simp add: plainSegment_def)
  moreover have "hd name \<noteq> slash"
    using assms(2) by (cases name) (auto simp add: plainSegment_def)
  ultimately have "resolveArgs [name, dir, c] [] = (dir @ slash # name @ [slash], True)"
    using d by simp
  with d False normalizeString_directory_file [OF d(2) assms(2), of False] show ?thesis
    by (simp add: pathResolve_def inDirectory_def)
qed

text \<open>The output path of line 34 is \<open>expo_booklet.pdf\<close> beside the script.\<close>

lemma outputPath_beside:
  assumes "normalizedAbsolute (dirname env)"
  shows "outputPath env = inDirectory (dirname env) (js ''expo_booklet.pdf'')"
  unfolding outputPath_def using assms
  by (rule pathResolve_beside) (simp add: plainSegment_def js_def slash_def dot_def)

subsection \<open>The extension of a path\<close>

lemma extnameScan_plain_after_end:
  assumes "list_all (\<lambda>c. c \<noteq> slash \<and> c \<noteq> dot) xs" "startDot v = -1" "endPos v \<noteq> -1"
  shows "extnameScan (xs @ rest) v = extnameScan rest v"
  using assms by (induction xs) (simp_all add: Let_def)

lemma extnameScan_plain:
  assumes "list_all (\<lambda>c. c \<noteq> slash \<and> c \<noteq> dot) xs" "xs \<noteq> []" "startDot v = -1"
    "endPos v = -1"
  shows "extnameScan (xs @ rest) v =
           extnameScan rest (v\<lparr>endPos := int (length (xs @ rest)), matchedSlash := False\<rparr>)"
proof (cases xs)
  case Nil
  with assms(2) show ?thesis by simp
next
  case (Cons x xs')
  let ?v1 = "v\<lparr>endPos := int (length (xs' @ rest)) + 1, matchedSlash := False\<rparr>"
  have "extnameScan (xs @ rest) v = extnameScan (xs' @ rest) ?v1"
    using Cons assms by (simp add: Let_def)
  also have "\<dots> = extnameScan rest ?v1"
    using Cons assms by (intro extnameScan_plain_after_end) simp_all
  finally show ?thesis
    using Cons by (simp add: add.commute)
qed

lemma extnameScan_step:
  assumes "code \<noteq> slash" "endPos v \<noteq> -1"
  shows "extnameScan (code # front) v =
           extnameScan front
             (if code = dot then
                (if startDot v = -1 then v\<lparr>startDot := int (length front)\<rparr>
                 else if preDotState v \<noteq> 1 then v\<lparr>preDotState := 1\<rparr> else v)
              else if startDot v \<noteq> -1 then v\<lparr>preDotState := -1\<rparr> else v)"
  using assms by (simp add: Let_def)

text \<open>
  Once the dot and the end of the extension are found and a code unit was seen to the left
  of the dot, the rest of the scan changes neither of them.
\<close>

lemma extnameScan_keeps_extension:
  assumes "startDot v \<noteq> -1" "endPos v \<noteq> -1" "preDotState v \<noteq> 0"
  shows "startDot (extnameScan ys v) = startDot v \<and> endPos (extnameScan ys v) = endPos v
       \<and> preDotState (extnameScan ys v) \<noteq> 0"
  using assms
proof (induction ys arbitrary: v)
  case Nil
  then show ?case by simp
next
  case (Cons y ys)
  show ?case
  proof (cases "y = slash")
    case True
    with Cons show ?thesis by (simp add: Let_def)
  next
    case False
    let ?v2 = "if y = dot then (if preDotState v \<noteq> 1 then v\<lparr>preDotState := 1\<rparr> else v)
               else v\<lparr>preDotState := -1\<rparr>"
    have step: "extnameScan (y # ys) v = extnameScan ys ?v2"
      using False Cons.prems by (simp add: Let_def)
    have "startDot ?v2 \<noteq> -1" "endPos ?v2 \<noteq> -1" "preDotState ?v2 \<noteq> 0"
      using Cons.prems by auto
    from Cons.IH [OF this] show ?thesis
      unfolding step using Cons.prems by auto
  qed
qed

text \<open>
  A path that ends in a dot followed by a non-empty run of code units other than \<open>/\<close> and
  \<open>.\<close>, the dot not being the first code unit of its segment, has that suffix as its
  extension: \<open>/srv/Poster.PNG\<close> has the extension \<open>.PNG\<close>.
\<close>

lemma extname_of_dotted_name:
  assumes "c \<noteq> slash" "e \<noteq> []" "list_all (\<lambda>c. c \<noteq> slash \<and> c \<noteq> dot) e"
  shows "extname (p @ c # dot # e) = dot # e"
proof -
  let ?path = "p @ c # dot # e"
  let ?init = "\<lparr>startDot = -1, startPart = 0, endPos = -1, matchedSlash = True,
                preDotState = 0\<rparr>"
  let ?va = "?init\<lparr>endPos := int (length (rev e @ dot # c # rev p)), matchedSlash := False\<rparr>"
  let ?vb = "?va\<lparr>startDot := int (length (c # rev p))\<rparr>"
  let ?vc = "if c = dot then ?vb\<lparr>preDotState := 1\<rparr> else ?vb\<lparr>preDotState := -1\<rparr>"
  have ds: "dot \<noteq> slash" by (simp add: dot_def slash_def)
  have e: "list_all (\<lambda>c. c \<noteq> slash \<and> c \<noteq> dot) (rev e)" "rev e \<noteq> []"
    using assms(2,3) by (simp_all add: list_all_iff)
  have "extnameScan (rev e @ dot # c # rev p) ?init = extnameScan (dot # c # rev p) ?va"
    by (rule extnameScan_plain [OF e]) simp_all
  also have "\<dots> = extnameScan (c # rev p) ?vb"
    by (subst extnameScan_step [OF ds]) simp_all
  also have "\<dots> = extnameScan (rev p) ?vc"
    by (subst extnameScan_step [OF assms(1)]) simp_all
  finally have scan: "extnameScan (rev ?path) ?init = extnameScan (rev p) ?vc"
    by simp
  have "startDot ?vc \<noteq> -1" "endPos ?vc \<noteq> -1" "preDotState ?vc \<noteq> 0"
    by auto
  from extnameScan_keeps_extension [OF this, of "rev p"]
  have v: "startDot (extnameScan (rev p) ?vc) = int (length p) + 1"
    "endPos (extnameScan (rev p) ?vc) = int (length ?path)"
    "preDotState (extnameScan (rev p) ?vc) \<noteq> 0"
    by (auto split: if_splits)
  have "int (length p) + 1 \<noteq> int (length ?path) - 1"
    using assms(2) by (cases e) auto
  then show ?thesis
    unfolding extname_def scan Let_def using v by (simp add: nat_add_distrib)
qed

subsection \<open>Lower-casing an extension\<close>

lemma upper_of_lower:
  fixes x k :: code_unit
  assumes "x + 32 = k" "97 \<le> k" "k \<le> 122"
  shows "65 \<le> x \<and> x \<le> 90"
  using assms by unat_arith

lemma caseVariant_lower:
  assumes "caseVariant ext entry"
    "list_all (\<lambda>k. k < 128 \<and> \<not> (65 \<le> k \<and> k \<le> 90)) entry"
  shows "list_all (\<lambda>c. c < 128) ext \<and> map asciiLower ext = entry"
  using assms unfolding caseVariant_def
proof (induction ext entry rule: list_all2_induct)
  case Nil
  show ?case by simp
next
  case (Cons x xs k ks)
  have "x < 128 \<and> asciiLower x = k"
  proof (cases "x = k")
    case True
    with Cons.prems show ?thesis by (simp add: asciiLower_def)
  next
    case False
    with Cons.hyps have k: "97 \<le> k" "k \<le> 122" "x + 32 = k" by auto
    from upper_of_lower [OF k(3) k(1) k(2)] have "65 \<le> x" "x \<le> 90" by auto
    moreover from \<open>x \<le> 90\<close> have "x < 128" by unat_arith
    ultimately show ?thesis using k by (simp add: asciiLower_def)
  qed
  with Cons show ?case by simp
qed

lemma MIME_entries_lower:
  assumes "map_of MIME entry = Some m"
  shows "list_all (\<lambda>k. k < 128 \<and> \<not> (65 \<le> k \<and> k \<le> 90)) entry"
  using assms by (auto simp add: MIME_def js_def split: if_splits)

lemma MIME_not_fallback:
  assumes "map_of MIME entry = Some m"
  shows "m \<noteq> js ''application/octet-stream''"
  using assms by (auto simp add: MIME_def js_def split: if_splits)

text \<open>The table of the script is the table of the specification.\<close>

lemma mimeOf_spec: "mimeOf u p = specContentType (toLowerCase u (extname p))"
  by (simp add: mimeOf_def specContentType_def MIME_def)

section \<open>The asset server: the claims\<close>

text \<open>
  Claim C1, as stated, does not hold, in three ways. A request is not always answered: in
  a file system in which no file can be read, the request \<open>/a%\<close> gets no 404, because
  decoding the path throws before \<open>fs.readFile\<close> is called; and the request
  \<open>/a%00.html\<close>, which decodes to a path holding a NUL code unit, gets no 404 either,
  because \<open>fs.readFile\<close> throws on that path. And the content type is not looked up
  under the extension of the file as it stands: \<open>.Css\<close> is no key of the table, yet
  \<open>/Style.Css\<close> is served as \<open>text/css\<close> and not as the generic binary type.
\<close>

theorem handler_departs_from_claim:
  "readFile noFiles (pathJoin (js ''/srv'') (js ''/a%'')) = Inr None
   \<and> requestHandler id noFiles (js ''/srv'') (js ''/a%'') = Inl URIError
   \<and> decodeURIComponent (js ''/a%00.html'') = Inr [47, 97, 0, 46, 104, 116, 109, 108]
   \<and> requestHandler id noFiles (js ''/srv'') (js ''/a%00.html'') = Inl ERR_INVALID_ARG_VALUE
   \<and> map_of MIME (extname (resolveFile (js ''/srv'') (js ''/Style.Css''))) = None
   \<and> requestHandler id demoFiles (js ''/srv'') (js ''/Style.Css'') =
       Inr \<lparr>status = 200, contentType = Some (js ''text/css''), body = utf8Bytes ''h1{}''\<rparr>"
  by code_simp

text \<open>
  Claim C1, amended: for every request whose URL path (the part before the first \<open>?\<close>)
  percent-decodes without error and whose resolved file path holds no NUL code unit, if
  the file can be read the handler answers status 200 with exactly the file's contents and
  the content type the specification's table gives for the lower-cased extension of the
  file path (\<open>application/octet-stream\<close> when the table has no entry for it); if the file
  cannot be read the handler answers status 404.
\<close>

theorem handler_answers_decoded_path:
  assumes "decodeURIComponent (takeWhile (\<lambda>c. c \<noteq> question) url) = Inr urlPath"
    "0 \<notin> set (resolveFile folder urlPath)"
  shows "(fs (resolveFile folder urlPath) = Some data \<longrightarrow>
            requestHandler u fs folder url =
              Inr \<lparr>status = 200,
                   contentType =
                     Some (specContentType (toLowerCase u (extname (resolveFile folder urlPath)))),
                   body = data\<rparr>)
       \<and> (fs (resolveFile folder urlPath) = None \<longrightarrow>
            requestHandler u fs folder url =
              Inr \<lparr>status = 404, contentType = None, body = utf8Bytes ''Not found''\<rparr>)"
  using assms by (simp add: requestHandler_def readFile_def mimeOf_spec)

text \<open>
  Instance: below \<open>/srv\<close>, \<open>/booklet.html?v=1\<close> is served as \<open>text/html\<close> and
  \<open>/missing.png\<close> is answered 404.
\<close>

theorem handler_answers_decoded_path_witness:
  "requestHandler id demoFiles (js ''/srv'') (js ''/booklet.html?v=1'') =
     Inr \<lparr>status = 200, contentType = Some (js ''text/html''),
          body = utf8Bytes ''<html></html>''\<rparr>
   \<and> requestHandler id demoFiles (js ''/srv'') (js ''/missing.png'') =
     Inr \<lparr>status = 404, contentType = None, body = utf8Bytes ''Not found''\<rparr>"
proof -
  have d1: "decodeURIComponent (takeWhile (\<lambda>c. c \<noteq> question) (js ''/booklet.html?v=1''))
            = Inr (js ''/booklet.html'')"
    by code_simp
  have n1: "0 \<notin> set (resolveFile (js ''/srv'') (js ''/booklet.html''))"
    by code_simp
  have r1: "demoFiles (resolveFile (js ''/srv'') (js ''/booklet.html''))
            = Some (utf8Bytes ''<html></html>'')"
    by code_simp
  have m1: "specContentType
              (toLowerCase id (extname (resolveFile (js ''/srv'') (js ''/booklet.html''))))
            = js ''text/html''"
    by code_simp
  have d2: "decodeURIComponent (takeWhile (\<lambda>c. c \<noteq> question) (js ''/missing.png''))
            = Inr (js ''/missing.png'')"
    by code_simp
  have n2: "0 \<notin> set (resolveFile (js ''/srv'') (js ''/missing.png''))"
    by code_simp
  have r2: "demoFiles (resolveFile (js ''/srv'') (js ''/missing.png'')) = None"
    by code_simp
  from handler_answers_decoded_path
         [OF d1 n1, where fs = demoFiles and u = id and data = "utf8Bytes ''<html></html>''"]
       handler_answers_decoded_path [OF d2 n2, where fs = demoFiles and u = id]
       r1 m1 r2
  show ?thesis by simp
qed

text \<open>
  Claim C6: the answer to the root path \<open>/\<close> is the answer to \<open>/booklet.html\<close>, with or
  without a query string, for every file system and every non-empty root directory (the
  script passes its own directory).
\<close>

theorem root_path_is_booklet:
  assumes "folder \<noteq> []" "q = [] \<or> hd q = question"
  shows "requestHandler u fs folder (js ''/'' @ q)
       = requestHandler u fs folder (js ''/booklet.html'' @ q)"
proof -
  have q: "takeWhile (\<lambda>c. c \<noteq> question) q = []"
    using assms(2) by (cases q) auto
  have t1: "takeWhile (\<lambda>c. c \<noteq> question) (js ''/'' @ q) = js ''/''"
    using q by (simp add: js_def question_def)
  have t2: "takeWhile (\<lambda>c. c \<noteq> question) (js ''/booklet.html'' @ q) = js ''/booklet.html''"
    using q by (simp add: js_def question_def)
  have d1: "decodeURIComponent (js ''/'') = Inr (js ''/'')"
    unfolding decodeURIComponent_def by (rule decodeFrom_plain) (simp add: js_def percent_def)
  have d2: "decodeURIComponent (js ''/booklet.html'') = Inr (js ''/booklet.html'')"
    unfolding decodeURIComponent_def by (rule decodeFrom_plain) (simp add: js_def percent_def)
  have "resolveFile folder (js ''/booklet.html'') = pathJoin folder (js ''booklet.html'')"
    using pathJoin_leading_slash [of folder "js ''booklet.html''"] assms(1)
    by (simp add: resolveFile_def js_def slash_def)
  moreover have "resolveFile folder (js ''/'') = pathJoin folder (js ''booklet.html'')"
    by (simp add: resolveFile_def)
  ultimately show ?thesis
    by (simp add: requestHandler_def t1 t2 d1 d2)
qed

text \<open>Instance: the two requests with the query string \<open>?v=1\<close>, below \<open>/srv\<close>.\<close>

theorem root_path_is_booklet_witness:
  "requestHandler id demoFiles (js ''/srv'') (js ''/?v=1'')
   = requestHandler id demoFiles (js ''/srv'') (js ''/booklet.html?v=1'')"
  using root_path_is_booklet [of "js ''/srv''" "js ''?v=1''" id demoFiles]
  by (simp add: js_def question_def)

text \<open>
  Claim C9: the handler is not total. For every request URL whose path part ends in a lone
  \<open>%\<close>, \<open>decodeURIComponent\<close> throws URIError inside the handler, which therefore
  produces no response (in particular no 404), whatever the file system holds.
\<close>

theorem handler_throws_on_lone_percent:
  assumes "question \<notin> set s"
  shows "requestHandler u fs folder (s @ [percent]) = Inl URIError"
proof -
  have "takeWhile (\<lambda>c. c \<noteq> question) (s @ [percent]) = s @ [percent]"
    using assms by (auto simp add: takeWhile_eq_all_conv percent_def question_def)
  then show ?thesis
    by (simp add: requestHandler_def decodeURIComponent_def decodeFrom_lone_percent)
qed

text \<open>Instance: the request \<open>/%\<close>.\<close>

theorem handler_throws_on_lone_percent_witness:
  "requestHandler id demoFiles (js ''/srv'') (js ''/%'') = Inl URIError"
  using handler_throws_on_lone_percent [of "js ''/''" id demoFiles "js ''/srv''"]
  by (simp add: js_def question_def percent_def)

text \<open>
  The handler has a second way to throw: a path that decodes to a string holding a NUL
  code unit is rejected by \<open>fs.readFile\<close> before any read.
\<close>

lemma handler_throws_on_nul:
  "requestHandler id demoFiles (js ''/srv'') (js ''/a%00.html'') = Inl ERR_INVALID_ARG_VALUE"
  by code_simp

text \<open>
  Claim C10: when a file is served and its extension differs only in letter case from an
  entry of the table, the content type of the response is the type of that entry, and not
  the generic binary type.
\<close>

theorem content_type_ignores_case:
  assumes "decodeURIComponent (takeWhile (\<lambda>c. c \<noteq> question) url) = Inr urlPath"
    "readFile fs (resolveFile folder urlPath) = Inr (Some data)"
    "map_of MIME entry = Some m"
    "caseVariant (extname (resolveFile folder urlPath)) entry"
  shows "requestHandler u fs folder url =
           Inr \<lparr>status = 200, contentType = Some m, body = data\<rparr>
       \<and> m \<noteq> js ''application/octet-stream''"
proof -
  have "toLowerCase u (extname (resolveFile folder urlPath)) = entry"
    using caseVariant_lower [OF assms(4) MIME_entries_lower [OF assms(3)]]
    by (simp add: toLowerCase_def)
  then have "mimeOf u (resolveFile folder urlPath) = m"
    using assms(3) by (simp add: mimeOf_def)
  with assms(1,2) MIME_not_fallback [OF assms(3)] show ?thesis
    by (simp add: requestHandler_def)
qed

text \<open>Instance: \<open>/Style.Css\<close> is served as \<open>text/css\<close>.\<close>

theorem content_type_ignores_case_witness:
  "requestHandler id demoFiles (js ''/srv'') (js ''/Style.Css?v=2'') =
     Inr \<lparr>status = 200, contentType = Some (js ''text/css''), body = utf8Bytes ''h1{}''\<rparr>"
proof -
  have d: "decodeURIComponent (takeWhile (\<lambda>c. c \<noteq> question) (js ''/Style.Css?v=2''))
           = Inr (js ''/Style.Css'')"
    by code_simp
  have r: "readFile demoFiles (resolveFile (js ''/srv'') (js ''/Style.Css''))
           = Inr (Some (utf8Bytes ''h1{}''))"
    by code_simp
  have m: "map_of MIME (js ''.css'') = Some (js ''text/css'')"
    by code_simp
  have c: "caseVariant (extname (resolveFile (js ''/srv'') (js ''/Style.Css''))) (js ''.css'')"
    by code_simp
  from content_type_ignores_case [OF d r m c, of id] show ?thesis
    by simp
qed

section \<open>The orchestrator: how a run ends\<close>

text \<open>The ending of each part of the body, as a decision table over the environment.\<close>

lemma finish_ending:
  "snd (finish env timedOut d t) =
     (if timedOut \<or> cardCount d = 0
      then (case closeError env of Some e \<Rightarrow> Threw e | None \<Rightarrow> Exited 1)
      else (case pdfError env of
              Some e \<Rightarrow> Threw e
            | None \<Rightarrow> (case closeError env of Some e \<Rightarrow> Threw e | None \<Rightarrow> Returned)))"
  by (simp add: finish_def await_def split: option.split)

lemma render_ending:
  "snd (render env t) =
     (case evaluate env of
        Inl e \<Rightarrow> Threw e
      | Inr d \<Rightarrow> snd (finish env (waitError env \<noteq> None) d []))"
  by (simp add: render_def Let_def finish_ending split: sum.split)

lemma asyncBody_ending:
  "snd (asyncBody env) =
     (case listenError env of
        Some e \<Rightarrow> Exited 1
      | None \<Rightarrow>
         (case launchError env of
            Some e \<Rightarrow> Threw e
          | None \<Rightarrow>
             (case newPageError env of
                Some e \<Rightarrow> Threw e
              | None \<Rightarrow>
                 (case setViewportError env of
                    Some e \<Rightarrow> Threw e
                  | None \<Rightarrow> snd (render env [])))))"
  by (simp add: asyncBody_def Let_def await_def startServer_def render_ending
        split: option.split)

lemma exitStatus_ending:
  "exitStatus env =
     (case snd (asyncBody env) of Returned \<Rightarrow> 0 | Exited n \<Rightarrow> n | Threw e \<Rightarrow> 1)"
  by (simp add: exitStatus_def main_def split: prod.split ending.split)

lemma trace_asyncBody:
  "trace env =
     fst (asyncBody env) @
       (case snd (asyncBody env) of Threw e \<Rightarrow> [Log (UnexpectedError e)] | _ \<Rightarrow> [])"
  by (simp add: trace_def main_def split: prod.split ending.split)

text \<open>When the server and the browser start, the body is the rendering part.\<close>

lemma startup_render:
  assumes "listenError env = None" "launchError env = None" "newPageError env = None"
    "setViewportError env = None"
  shows "asyncBody env =
           render env [Log (StartingServer PORT), Did StartServer, Log LaunchingChrome,
                       Did LaunchBrowser, Did NewPage, Did SetViewport, Did AttachListeners]"
  using assms by (simp add: asyncBody_def Let_def await_def startServer_def)

lemma finish_extends: "\<exists>t'. fst (finish env timedOut d t) = t @ t'"
  by (simp add: finish_def await_def split: option.split)

text \<open>The outcome of the navigation is read nowhere but in the navigation step.\<close>

lemma evaluate_goto: "evaluate (env\<lparr>gotoError := g\<rparr>) = evaluate env"
  by (simp add: evaluate_def split: option.split)

lemma finish_goto: "finish (env\<lparr>gotoError := g\<rparr>) b d t = finish env b d t"
  by (simp add: finish_def outputPath_def)

lemma render_ending_goto: "snd (render (env\<lparr>gotoError := g\<rparr>) t) = snd (render env t)"
  by (simp add: render_ending evaluate_goto finish_goto split: sum.split)

lemma asyncBody_ending_goto: "snd (asyncBody (env\<lparr>gotoError := g\<rparr>)) = snd (asyncBody env)"
  by (simp add: asyncBody_ending render_ending_goto split: option.split)

lemma render_after_goto_timeout:
  assumes "gotoError env = Some e"
  shows "\<exists>w t'. fst (render env t) =
           (t @ [Log (Opening pageUrl)]) @
           [Failed (Goto pageUrl) e, Log NetworkIdleTimedOut, Log WaitingForCards] @ (w # t')
         \<and> calledAction w = Some WaitForFunction"
proof (cases "evaluate env")
  case (Inl x)
  with assms show ?thesis
    by (cases "waitError env") (simp_all add: render_def Let_def)
next
  case (Inr d)
  let ?w = "case waitError env of
              Some e \<Rightarrow> Failed WaitForFunction e
            | None \<Rightarrow> Did WaitForFunction"
  let ?t5 = "t @ [Log (Opening pageUrl), Failed (Goto pageUrl) e, Log NetworkIdleTimedOut,
                  Log WaitingForCards, ?w, Did Evaluate, Log (PageDiagnostics d)]"
  have r: "render env t = finish env (waitError env \<noteq> None) d ?t5"
    using Inr assms by (cases "waitError env") (simp_all add: render_def Let_def)
  obtain t' where "fst (render env t) = ?t5 @ t'"
    using finish_extends [of env "waitError env \<noteq> None" d ?t5] r by auto
  then have "fst (render env t) =
           (t @ [Log (Opening pageUrl)]) @
           [Failed (Goto pageUrl) e, Log NetworkIdleTimedOut, Log WaitingForCards] @
           (?w # ([Did Evaluate, Log (PageDiagnostics d)] @ t'))"
    by simp
  moreover have "calledAction ?w = Some WaitForFunction"
    by (cases "waitError env") simp_all
  ultimately show ?thesis by blast
qed

text \<open>
  A part of the body that ends with an exception has closed neither the browser nor the
  server.
\<close>

lemma finish_closes:
  assumes "snd (finish env timedOut d t) = Threw e"
  shows "set (fst (finish env timedOut d t)) \<inter> {Did ServerClose, Did BrowserClose}
         = set t \<inter> {Did ServerClose, Did BrowserClose}"
  using assms by (auto simp add: finish_def await_def split: option.splits if_splits)

lemma render_closes:
  assumes "snd (render env t) = Threw e"
  shows "set (fst (render env t)) \<inter> {Did ServerClose, Did BrowserClose}
         = set t \<inter> {Did ServerClose, Did BrowserClose}"
proof (cases "evaluate env")
  case (Inl x)
  then show ?thesis
    by (auto simp add: render_def Let_def split: option.splits)
next
  case (Inr d)
  let ?t5 = "((t @ [Log (Opening pageUrl)]) @
            (case gotoError env of
               Some e \<Rightarrow> [Failed (Goto pageUrl) e, Log NetworkIdleTimedOut]
             | None \<Rightarrow> [Did (Goto pageUrl)])) @ [Log WaitingForCards] @
            (case waitError env of
               Some e \<Rightarrow> [Failed WaitForFunction e]
             | None \<Rightarrow> [Did WaitForFunction]) @ [Did Evaluate, Log (PageDiagnostics d)]"
  have r: "render env t = finish env (waitError env \<noteq> None) d ?t5"
    using Inr by (simp add: render_def Let_def split: option.splits)
  have "set ?t5 \<inter> {Did ServerClose, Did BrowserClose}
        = set t \<inter> {Did ServerClose, Did BrowserClose}"
    by (auto split: option.splits)
  with finish_closes [of env "waitError env \<noteq> None" d ?t5 e] assms r show ?thesis
    by simp
qed

lemma asyncBody_closes:
  assumes "snd (asyncBody env) = Threw e"
  shows "Did ServerClose \<notin> set (fst (asyncBody env))
       \<and> Did BrowserClose \<notin> set (fst (asyncBody env))
       \<and> Did StartServer \<in> set (fst (asyncBody env))"
proof (cases "listenError env = None \<and> launchError env = None \<and> newPageError env = None
              \<and> setViewportError env = None")
  case False
  with assms show ?thesis
    by (auto simp add: asyncBody_def Let_def await_def startServer_def split: option.splits)
next
  case True
  let ?t = "[Log (StartingServer PORT), Did StartServer, Log LaunchingChrome, Did LaunchBrowser,
             Did NewPage, Did SetViewport, Did AttachListeners]"
  have a: "asyncBody env = render env ?t"
    using True by (simp add: startup_render)
  have "set (fst (render env ?t)) \<inter> {Did ServerClose, Did BrowserClose}
        = set ?t \<inter> {Did ServerClose, Did BrowserClose}"
    using assms a by (intro render_closes [of env ?t e]) simp
  moreover have "set ?t \<inter> {Did ServerClose, Did BrowserClose} = {}"
    by simp
  moreover have "Did StartServer \<in> set (fst (render env ?t))"
    by (auto simp add: render_def Let_def finish_def await_def split: option.splits sum.splits)
  ultimately show ?thesis
    using a by auto
qed

text \<open>
  When no request makes the callback throw, the process does what the script does and
  exits with the script's status.
\<close>

lemma firstThrow_filter:
  assumes "firstThrow h (map snd inc) = None"
  shows "firstThrow h (map snd (filter P inc)) = None"
  using assms by (induction inc) (auto split: sum.splits)

lemma handlerSurvives_no_crash:
  assumes "handlerSurvives net env"
  shows "handlerCrash net env a = None"
  using assms firstThrow_filter
  by (simp add: handlerSurvives_def handlerCrash_def arriving_def)

lemma serveDuring_quiet:
  assumes "\<And>a. crash a = None"
  shows "serveDuring crash past t st = \<lparr>events = past @ t, uncaught = None, exitCode = st\<rparr>"
  using assms by (induction t arbitrary: past) (auto split: option.splits)

lemma nodeProcess_quiet:
  assumes "handlerSurvives net env"
  shows "nodeProcess net env =
           \<lparr>events = trace env, uncaught = None, exitCode = exitStatus env\<rparr>"
  using serveDuring_quiet [of "handlerCrash net env" "[]" "trace env" "exitStatus env"]
    handlerSurvives_no_crash [OF assms]
  by (simp add: nodeProcess_def)

section \<open>The orchestrator: the claims\<close>

text \<open>
  Claim C2, as stated, does not hold. In the run \<open>demoRun\<close> the wait for the cards
  succeeds and the snapshot counts three cards. With the same wait and the same page, the
  process exits with status 1 and writes no file when \<open>page.pdf\<close> fails; it exits with
  status 1 when \<open>browser.close\<close> fails; and it exits with status 1 and writes no file
  when, after the wait has succeeded, a request that arrives during \<open>page.pdf\<close> makes
  the request callback throw.
\<close>

theorem render_success_without_pdf:
  "waitError demoRun = None \<and> evaluate demoRun = Inr demoSnapshot
   \<and> cardCount demoSnapshot = 3
   \<and> exitCode (nodeProcess demoNetwork (demoRun\<lparr>pdfError := Some EngineError\<rparr>)) = 1
   \<and> writtenFiles (events (nodeProcess demoNetwork (demoRun\<lparr>pdfError := Some EngineError\<rparr>)))
       = []
   \<and> exitCode (nodeProcess demoNetwork (demoRun\<lparr>closeError := Some EngineError\<rparr>)) = 1
   \<and> Did WaitForFunction \<in> set (events (nodeProcess
         (demoNetwork\<lparr>incoming := [(PagePdf (outputPath demoRun), js ''/img/100%.png'')]\<rparr>)
         demoRun))
   \<and> exitCode (nodeProcess
         (demoNetwork\<lparr>incoming := [(PagePdf (outputPath demoRun), js ''/img/100%.png'')]\<rparr>)
         demoRun) = 1
   \<and> writtenFiles (events (nodeProcess
         (demoNetwork\<lparr>incoming := [(PagePdf (outputPath demoRun), js ''/img/100%.png'')]\<rparr>)
         demoRun)) = []"
  by code_simp

text \<open>
  Claim C2, amended: in every run in which the server and the browser start, the wait for
  a \<open>.exhibit-box\<close> element succeeds, the snapshot counts at least one card, \<open>page.pdf\<close>
  and \<open>browser.close\<close> complete, and no request makes the request callback throw, the
  process writes exactly one file, at the output path, and exits with status 0. The
  output path is \<open>expo_booklet.pdf\<close> beside the script. Whether the navigation timed out
  does not matter.
\<close>

theorem render_success_writes_pdf:
  assumes "listenError env = None" "launchError env = None" "newPageError env = None"
    "setViewportError env = None" "waitError env = None" "evaluate env = Inr d"
    "0 < cardCount d" "pdfError env = None" "closeError env = None"
    "handlerSurvives net env"
  shows "exitCode (nodeProcess net env) = 0
       \<and> writtenFiles (events (nodeProcess net env)) = [outputPath env]
       \<and> (normalizedAbsolute (dirname env) \<longrightarrow>
            outputPath env = inDirectory (dirname env) (js ''expo_booklet.pdf''))"
proof -
  have "exitStatus env = 0 \<and> writtenFiles (trace env) = [outputPath env]"
    using assms(1-9)
    by (cases "gotoError env")
       (simp_all add: exitStatus_def trace_def main_def startup_render render_def finish_def
          await_def)
  then show ?thesis
    using nodeProcess_quiet [OF assms(10)] outputPath_beside [of env] by simp
qed

text \<open>
  Instance: the run \<open>demoRun\<close> of the script in \<open>/home/u/expo\<close>, with the requests of
  \<open>demoNetwork\<close>, writes \<open>/home/u/expo/expo_booklet.pdf\<close> and exits with status 0.
\<close>

theorem render_success_writes_pdf_witness:
  "exitCode (nodeProcess demoNetwork demoRun) = 0
   \<and> writtenFiles (events (nodeProcess demoNetwork demoRun))
       = [js ''/home/u/expo/expo_booklet.pdf'']"
proof -
  have s: "listenError demoRun = None" "launchError demoRun = None"
    "newPageError demoRun = None" "setViewportError demoRun = None"
    "waitError demoRun = None" "pdfError demoRun = None" "closeError demoRun = None"
    by (simp_all add: demoRun_def)
  have d: "evaluate demoRun = Inr demoSnapshot"
    by code_simp
  have c: "0 < cardCount demoSnapshot"
    by (simp add: demoSnapshot_def)
  have h: "handlerSurvives demoNetwork demoRun"
    by code_simp
  have n: "normalizedAbsolute (dirname demoRun)"
    by code_simp
  have i: "inDirectory (dirname demoRun) (js ''expo_booklet.pdf'')
           = js ''/home/u/expo/expo_booklet.pdf''"
    by code_simp
  from render_success_writes_pdf [OF s(1-5) d c s(6,7) h] n i show ?thesis
    by simp
qed




text \<open>
  Claim C4 asks for the browser to be closed and the server to be stopped on every exit
  path. The script does so where the body ends normally (lines 135-136) and where no card
  was rendered (lines 115-116), but not where an exception escapes the body: the handler
  of line 142 prints the message and exits. In every such run the server was started, the
  process exits with status 1, and neither \<open>browser.close\<close> nor \<open>server.close\<close>
  completed.
\<close>

theorem escaped_exception_skips_cleanup:
  assumes "snd (asyncBody env) = Threw e"
  shows "exitStatus env = 1 \<and> Did StartServer \<in> set (trace env)
       \<and> Did ServerClose \<notin> set (trace env) \<and> Did BrowserClose \<notin> set (trace env)"
  using assms asyncBody_closes [OF assms]
  by (simp add: exitStatus_ending trace_asyncBody)

text \<open>Instance: the run \<open>demoRun\<close>, except that the capture of the PDF fails.\<close>

theorem escaped_exception_skips_cleanup_witness:
  "exitStatus (demoRun\<lparr>pdfError := Some EngineError\<rparr>) = 1
   \<and> Did StartServer \<in> set (trace (demoRun\<lparr>pdfError := Some EngineError\<rparr>))
   \<and> Did ServerClose \<notin> set (trace (demoRun\<lparr>pdfError := Some EngineError\<rparr>))
   \<and> Did BrowserClose \<notin> set (trace (demoRun\<lparr>pdfError := Some EngineError\<rparr>))"
proof -
  have "snd (asyncBody (demoRun\<lparr>pdfError := Some EngineError\<rparr>)) = Threw EngineError"
    by code_simp
  from escaped_exception_skips_cleanup [OF this] show ?thesis .
qed

text \<open>
  Claim C5: in every run in which the server fails to start, \<open>startServer\<close> reports the
  failure as a rejection (a value the caller catches), the script prints the cause, the
  process exits with status 1, and the launch of the browser is not attempted.
\<close>

theorem server_start_failure_exits_1:
  assumes "listenError env = Some e"
  shows "startServer (listenError env) (dirname env) PORT = Inl e
       \<and> main env = ([Log (StartingServer PORT), Failed StartServer e,
                      Log (CouldNotStart PORT e)], 1)
       \<and> \<not> attempted LaunchBrowser (trace env)"
  using assms
  by (simp add: main_def asyncBody_def startServer_def trace_def attempted_def)

text \<open>Instance: the run \<open>demoRun\<close>, except that the port is already bound.\<close>

theorem server_start_failure_exits_1_witness:
  "main (demoRun\<lparr>listenError := Some EADDRINUSE\<rparr>) =
     ([Log (StartingServer PORT), Failed StartServer EADDRINUSE,
       Log (CouldNotStart PORT EADDRINUSE)], 1)
   \<and> \<not> attempted LaunchBrowser (trace (demoRun\<lparr>listenError := Some EADDRINUSE\<rparr>))"
proof -
  have "listenError (demoRun\<lparr>listenError := Some EADDRINUSE\<rparr>) = Some EADDRINUSE"
    by simp
  from server_start_failure_exits_1 [OF this] show ?thesis
    by simp
qed

text \<open>
  Claim C7: a failure of \<open>page.goto\<close> (the network-idle timeout) is not fatal. The exit
  status of the run is the exit status of the same run with a successful navigation; and
  when the server and the browser have started, the failure is followed by the line saying
  so, the line announcing the wait for the cards, and the call of \<open>page.waitForFunction\<close>.
\<close>

theorem navigation_timeout_not_fatal:
  assumes "listenError env = None" "launchError env = None" "newPageError env = None"
    "setViewportError env = None" "gotoError env = Some e"
  shows "exitStatus env = exitStatus (env\<lparr>gotoError := None\<rparr>)
       \<and> (\<exists>t1 t2. trace env =
             t1 @ [Failed (Goto pageUrl) e, Log NetworkIdleTimedOut, Log WaitingForCards] @ t2
           \<and> attempted WaitForFunction t2)"
proof -
  let ?t = "[Log (StartingServer PORT), Did StartServer, Log LaunchingChrome,
             Did LaunchBrowser, Did NewPage, Did SetViewport, Did AttachListeners]"
  have "exitStatus env = exitStatus (env\<lparr>gotoError := None\<rparr>)"
    by (simp add: exitStatus_ending asyncBody_ending_goto)
  moreover
  obtain w t' where w: "fst (render env ?t) =
           (?t @ [Log (Opening pageUrl)]) @
           [Failed (Goto pageUrl) e, Log NetworkIdleTimedOut, Log WaitingForCards] @ (w # t')"
         "calledAction w = Some WaitForFunction"
    using render_after_goto_timeout [OF assms(5), of ?t] by blast
  obtain s where s: "trace env = fst (render env ?t) @ s"
    using trace_asyncBody [of env] startup_render [OF assms(1-4)] by simp
  have "trace env = (?t @ [Log (Opening pageUrl)]) @
           [Failed (Goto pageUrl) e, Log NetworkIdleTimedOut, Log WaitingForCards]
           @ (w # t' @ s)"
    using w(1) s by simp
  moreover have "attempted WaitForFunction (w # t' @ s)"
    using w(2) by (simp add: attempted_def)
  ultimately show ?thesis by blast
qed

text \<open>Instance: the run \<open>demoRun\<close>, whose navigation times out, exits with status 0.\<close>

theorem navigation_timeout_not_fatal_witness:
  "exitStatus demoRun = 0
   \<and> (\<exists>t1 t2. trace demoRun =
         t1 @ [Failed (Goto pageUrl) TimeoutError, Log NetworkIdleTimedOut,
               Log WaitingForCards] @ t2
       \<and> attempted WaitForFunction t2)"
proof -
  have s: "listenError demoRun = None" "launchError demoRun = None"
    "newPageError demoRun = None" "setViewportError demoRun = None"
    "gotoError demoRun = Some TimeoutError"
    by (simp_all add: demoRun_def)
  have "exitStatus (demoRun\<lparr>gotoError := None\<rparr>) = 0"
    by code_simp
  with navigation_timeout_not_fatal [OF s] show ?thesis
    by simp
qed

text \<open>
  Claim C8, as stated, does not hold for every page: when the document has no body,
  \<open>document.body\<close> is null, reading \<open>innerHTML\<close> throws, and no snapshot is produced.
\<close>

theorem diagnostics_throws_without_body:
  "diagnosticsOf bodylessPage = Inl TypeError"
  by (simp add: diagnosticsOf_def bodylessPage_def)

text \<open>
  Claim C8, amended: for every page whose document has a body, the extraction does not
  throw and produces the snapshot; when the element \<open>#loading\<close> (respectively \<open>#status\<close>)
  is absent, the corresponding field of the snapshot is the placeholder string.
\<close>

theorem snapshot_when_body_exists:
  assumes "bodyInnerHTML d = Some html"
  shows "\<exists>snap. diagnosticsOf d = Inr snap
       \<and> (loadingElement d = None \<longrightarrow> loadingText snap = js ''(no #loading element)'')
       \<and> (statusElement d = None \<longrightarrow> statusText snap = js ''(no #status element)'')"
  using assms by (simp add: diagnosticsOf_def textOr_def)

text \<open>Instance: the page \<open>demoPage\<close>, which has no \<open>#loading\<close> element.\<close>

theorem snapshot_when_body_exists_witness:
  "\<exists>snap. diagnosticsOf demoPage = Inr snap
     \<and> loadingText snap = js ''(no #loading element)''"
proof -
  have b: "bodyInnerHTML demoPage = Some (js ''<div></div>'')"
    by (simp add: demoPage_def)
  have l: "loadingElement demoPage = None"
    by (simp add: demoPage_def)
  from snapshot_when_body_exists [OF b] l show ?thesis
    by auto
qed

end
